theory Spec2Isabelle
  imports Main "HOL-Library.Sublist"
begin

section \<open>Time\<close>

text \<open>
  A Python \<open>datetime\<close> has microsecond resolution and no rounding: it is modelled as the
  number of microseconds since a fixed local midnight. \<open>timedelta(seconds=n)\<close> for an
  integer \<open>n\<close> is \<open>n * 10^6\<close>, and \<open>.date()\<close> is the day number. The database
  server's \<open>CURDATE()\<close> and \<open>CURRENT_TIMESTAMP\<close> are read off the same clock as
  Python's \<open>datetime.now()\<close>.
\<close>

type_synonym datetime = int
type_synonym date = int

definition timedelta :: "int \<Rightarrow> int" where
  "timedelta secs = secs * 1000000"

definition date_of :: "datetime \<Rightarrow> date" where
  "date_of t = t div (86400 * 1000000)"

section \<open>Tables\<close>

text \<open>
  \<open>fx_account_status.status\<close> is a string column; the values the repository writes are
  the six of the state machine and \<open>ACTIVE\<close> (written by \<open>update_last_crawl_time\<close>).
\<close>

datatype status = PENDING | PROCESSING | COMPLETED | EXCEPTION | FAILED | RETRYING | ACTIVE

fun status_name :: "status \<Rightarrow> string" where
  "status_name PENDING = ''PENDING''"
| "status_name PROCESSING = ''PROCESSING''"
| "status_name COMPLETED = ''COMPLETED''"
| "status_name EXCEPTION = ''EXCEPTION''"
| "status_name FAILED = ''FAILED''"
| "status_name RETRYING = ''RETRYING''"
| "status_name ACTIVE = ''ACTIVE''"

datatype compensation_state = C_PENDING | C_COMPLETED | C_FAILED

datatype ledger_status = finished | unfinished

text \<open>One row of \<open>fx_account_status\<close>. A column that SQL may hold NULL in is an option.\<close>

record account =
  account_id :: string
  account_name :: string
  status :: status
  retry_count :: int
  last_exception_msg :: "string option"
  next_retry_time :: "datetime option"
  compensation_priority :: "int option"
  consecutive_failures :: "int option"
  last_failed_date :: "date option"
  failed_reason_backup :: "string option"
  create_time :: datetime
  update_time :: datetime
  last_update_time :: datetime

text \<open>One row of \<open>fx_compensation_history\<close>.\<close>

record compensation =
  c_account_id :: string
  c_account_name :: string
  failed_date :: date
  failure_reason :: "string option"
  compensation_status :: compensation_state
  compensation_date :: "date option"
  c_create_time :: datetime
  c_update_time :: datetime

text \<open>One row of \<open>fx_crawl_exception\<close>.\<close>

record crawl_event =
  finished_date :: datetime
  e_status :: ledger_status

text \<open>
  The database as the orchestrator sees it. \<open>conn_ok\<close> says that the connection is
  usable: \<open>is_connected() or reconnect()\<close> holds and no statement raises. When it is
  false every operation takes its failure path (the early \<open>return False\<close>, or the
  \<open>except\<close> branch of a method that opens a cursor without the check) and writes nothing.
\<close>

record db =
  conn_ok :: bool
  fx_account_status :: "account list"
  fx_compensation_history :: "compensation list"
  fx_crawl_exception :: "crawl_event list"

section \<open>AccountStatusManager\<close>

subsection \<open>The crawl-exception ledger\<close>

definition resolve_crawl_exception :: "datetime \<Rightarrow> db \<Rightarrow> bool \<times> db" where
  "resolve_crawl_exception now st =
     (if \<not> conn_ok st then (False, st)
      else (True, st\<lparr>fx_crawl_exception :=
              fx_crawl_exception st @ [\<lparr>finished_date = now, e_status = finished\<rparr>]\<rparr>))"

definition mark_crawl_unfinished :: "datetime \<Rightarrow> db \<Rightarrow> bool \<times> db" where
  "mark_crawl_unfinished now st =
     (if \<not> conn_ok st then (False, st)
      else (True, st\<lparr>fx_crawl_exception :=
              fx_crawl_exception st @ [\<lparr>finished_date = now, e_status = unfinished\<rparr>]\<rparr>))"

subsection \<open>Recording failed accounts for compensation\<close>

definition is_failed :: "account \<Rightarrow> bool" where
  \<comment> \<open>\<open>status IN ('EXCEPTION', 'FAILED')\<close>\<close>
  "is_failed a = (status a = EXCEPTION \<or> status a = FAILED)"

definition status_abnormal :: string where
  \<comment> \<open>the UTF-8 bytes of the four-character Chinese prefix of the default reason, then \<open>: \<close>\<close>
  "status_abnormal =
     [CHR 0xE7, CHR 0x8A, CHR 0xB6, CHR 0xE6, CHR 0x80, CHR 0x81,
      CHR 0xE5, CHR 0xBC, CHR 0x82, CHR 0xE5, CHR 0xB8, CHR 0xB8] @ '': ''"

definition failure_reason_of :: "account \<Rightarrow> string" where
  \<comment> \<open>\<open>account['last_exception_msg'] or f"...: {account['status']}"\<close>: None and the empty
      string are both falsy\<close>
  "failure_reason_of a =
     (case last_exception_msg a of
        None \<Rightarrow> status_abnormal @ status_name (status a)
      | Some m \<Rightarrow> if m = [] then status_abnormal @ status_name (status a) else m)"

definition same_key :: "string \<Rightarrow> date \<Rightarrow> compensation \<Rightarrow> bool" where
  "same_key aid d c = (c_account_id c = aid \<and> failed_date c = d)"

definition key_status :: "compensation \<Rightarrow> string \<times> date \<times> compensation_state" where
  \<comment> \<open>the key of a record and its \<open>compensation_status\<close>\<close>
  "key_status c = (c_account_id c, failed_date c, compensation_status c)"

text \<open>
  Modelled from the spec: the unique key of \<open>fx_compensation_history\<close>, whose table
  declaration is not in the repository, is \<open>(account_id, failed_date)\<close>. With it
  \<open>INSERT ... ON DUPLICATE KEY UPDATE failure_reason = VALUES(failure_reason),
  update_time = CURRENT_TIMESTAMP\<close> either appends a PENDING row or rewrites the reason
  and the update time of the row that holds the key, leaving its
  \<open>compensation_status\<close> as it is. Columns the statement does not name take their
  defaults: the timestamps the current time, \<open>compensation_date\<close> NULL.
\<close>

definition upsert_pending :: "datetime \<Rightarrow> date \<Rightarrow> compensation list \<Rightarrow> account \<Rightarrow> compensation list" where
  "upsert_pending now current_date cs a =
     (if list_ex (same_key (account_id a) current_date) cs
      then map (\<lambda>c. if same_key (account_id a) current_date c
                      then c\<lparr>failure_reason := Some (failure_reason_of a), c_update_time := now\<rparr>
                      else c) cs
      else cs @ [\<lparr>c_account_id = account_id a, c_account_name = account_name a,
                  failed_date = current_date, failure_reason = Some (failure_reason_of a),
                  compensation_status = C_PENDING, compensation_date = None,
                  c_create_time = now, c_update_time = now\<rparr>])"

definition record_failed_accounts_for_compensation :: "datetime \<Rightarrow> date \<Rightarrow> db \<Rightarrow> bool \<times> db" where
  "record_failed_accounts_for_compensation now current_date st =
     (if \<not> conn_ok st then (False, st)
      else let failed_accounts = filter is_failed (fx_account_status st)
           in if failed_accounts = [] then (True, st)
              else (True, st\<lparr>fx_compensation_history :=
                      foldl (upsert_pending now current_date) (fx_compensation_history st) failed_accounts\<rparr>))"

definition record_current_failures_to_compensation :: "datetime \<Rightarrow> db \<Rightarrow> bool \<times> db" where
  "record_current_failures_to_compensation now st =
     record_failed_accounts_for_compensation now (date_of now) st"

subsection \<open>The smart reset\<close>

text \<open>
  \<open>update_compensation_sql\<close> is one single-table \<open>UPDATE\<close> with four assignments. MySQL
  (the server behind \<open>pymysql\<close>) evaluates the assignments of such a statement from left
  to right, and an expression that names a column reads the value the column has at
  that moment, so a later assignment sees what an earlier one wrote. The model applies
  the four assignments in the order of the statement, each to the row as updated so far.
\<close>

definition date_before :: "date option \<Rightarrow> date \<Rightarrow> bool" where
  \<comment> \<open>\<open>last_failed_date IS NULL OR last_failed_date < %s\<close>\<close>
  "date_before d today = (case d of None \<Rightarrow> True | Some x \<Rightarrow> x < today)"

definition set_failed_reason_backup :: "account \<Rightarrow> account" where
  "set_failed_reason_backup r =
     r\<lparr>failed_reason_backup :=
         (if is_failed r \<and> last_exception_msg r \<noteq> None then last_exception_msg r
          else failed_reason_backup r)\<rparr>"

definition set_last_failed_date :: "date \<Rightarrow> account \<Rightarrow> account" where
  "set_last_failed_date today r =
     r\<lparr>last_failed_date :=
         (if is_failed r \<and> date_before (last_failed_date r) today then Some today
          else last_failed_date r)\<rparr>"

definition set_compensation_priority :: "account \<Rightarrow> account" where
  "set_compensation_priority r =
     r\<lparr>compensation_priority :=
         (if is_failed r then Some 1
          else if status r = RETRYING then Some 1
          else compensation_priority r)\<rparr>"

definition set_consecutive_failures :: "date \<Rightarrow> account \<Rightarrow> account" where
  "set_consecutive_failures today r =
     r\<lparr>consecutive_failures :=
         (if is_failed r \<and> date_before (last_failed_date r) today
          then Some ((case consecutive_failures r of None \<Rightarrow> 0 | Some n \<Rightarrow> n) + 1)
          else if status r = COMPLETED then Some 0
          else consecutive_failures r)\<rparr>"

definition update_compensation :: "date \<Rightarrow> account \<Rightarrow> account" where
  "update_compensation today r =
     (if status r = EXCEPTION \<or> status r = FAILED \<or> status r = RETRYING
      then set_consecutive_failures today
             (set_compensation_priority
               (set_last_failed_date today
                 (set_failed_reason_backup r)))
      else r)"

definition reset_status :: "datetime \<Rightarrow> account \<Rightarrow> account" where
  "reset_status now r =
     (if status r \<noteq> PENDING
      then r\<lparr>status := PENDING, last_update_time := now, update_time := now,
             last_exception_msg := None, next_retry_time := None\<rparr>
      else r)"

definition reset_all_accounts_to_pending :: "datetime \<Rightarrow> db \<Rightarrow> bool \<times> db" where
  "reset_all_accounts_to_pending now st =
     (if \<not> conn_ok st then (False, st)
      else let current_date = date_of now;
               st1 = snd (record_failed_accounts_for_compensation now current_date st);
               st2 = st1\<lparr>fx_account_status := map (update_compensation current_date) (fx_account_status st1)\<rparr>;
               st3 = st2\<lparr>fx_account_status := map (reset_status now) (fx_account_status st2)\<rparr>
           in (True, st3))"

subsection \<open>Closing compensation records\<close>

definition in_window :: "date \<Rightarrow> string \<Rightarrow> compensation \<Rightarrow> bool" where
  \<comment> \<open>\<open>account_id = %s AND compensation_status = 'PENDING' AND
      failed_date >= CURDATE() - INTERVAL 7 DAY\<close>\<close>
  "in_window today aid c =
     (c_account_id c = aid \<and> compensation_status c = C_PENDING \<and> failed_date c \<ge> today - 7)"

definition mark_compensation_completed :: "datetime \<Rightarrow> string \<Rightarrow> db \<Rightarrow> bool \<times> db" where
  "mark_compensation_completed now aid st =
     (if \<not> conn_ok st then (False, st)
      else (True, st\<lparr>
        fx_account_status :=
          map (\<lambda>a. if account_id a = aid
                    then a\<lparr>compensation_priority := Some 0, consecutive_failures := Some 0,
                           last_update_time := now, update_time := now\<rparr>
                    else a) (fx_account_status st),
        fx_compensation_history :=
          map (\<lambda>c. if in_window (date_of now) aid c
                    then c\<lparr>compensation_status := C_COMPLETED,
                           compensation_date := Some (date_of now), c_update_time := now\<rparr>
                    else c) (fx_compensation_history st)\<rparr>))"

text \<open>
  \<open>mark_compensation_failed\<close>: when the update matches no row, one FAILED row for today
  is inserted per row of \<open>fx_account_status\<close> with that id. This plain \<open>INSERT\<close> raises on
  a duplicate key; the exception is caught, nothing is written and False is returned.
\<close>

definition mark_compensation_failed :: "datetime \<Rightarrow> string \<Rightarrow> string option \<Rightarrow> db \<Rightarrow> bool \<times> db" where
  "mark_compensation_failed now aid reason st =
     (if \<not> conn_ok st then (False, st)
      else if list_ex (in_window (date_of now) aid) (fx_compensation_history st)
      then (True, st\<lparr>fx_compensation_history :=
              map (\<lambda>c. if in_window (date_of now) aid c
                        then c\<lparr>compensation_status := C_FAILED, c_update_time := now,
                               failure_reason := (case reason of None \<Rightarrow> failure_reason c | Some x \<Rightarrow> Some x)\<rparr>
                        else c) (fx_compensation_history st)\<rparr>)
      else let new_rows = map (\<lambda>s. \<lparr>c_account_id = account_id s, c_account_name = account_name s,
                                     failed_date = date_of now, failure_reason = reason,
                                     compensation_status = C_FAILED, compensation_date = None,
                                     c_create_time = now, c_update_time = now\<rparr>)
                              (filter (\<lambda>s. account_id s = aid) (fx_account_status st))
           in if new_rows = [] then (True, st)
              else if length new_rows > 1
                      \<or> list_ex (same_key aid (date_of now)) (fx_compensation_history st)
              then (False, st)
              else (True, st\<lparr>fx_compensation_history := fx_compensation_history st @ new_rows\<rparr>))"

section \<open>LoopCrawler\<close>

text \<open>An entry of the attempted list: \<open>{'account_id': ..., 'account_name': ...}\<close>.\<close>

record target =
  target_id :: string
  target_name :: string

subsection \<open>Test mode\<close>

definition lower_char :: "char \<Rightarrow> char" where
  \<comment> \<open>\<open>str.lower()\<close> on the ASCII letters; no other character lower-cases to a letter of
      \<open>test\<close>\<close>
  "lower_char c =
     (let n = (of_char c :: nat) in if 65 \<le> n \<and> n \<le> 90 then char_of (n + 32) else c)"

fun contains :: "string \<Rightarrow> string \<Rightarrow> bool" where
  \<comment> \<open>\<open>sub in s\<close>\<close>
  "contains sub [] = (sub = [])"
| "contains sub (c # cs) = (prefix sub (c # cs) \<or> contains sub cs)"

fun posix_basename :: "string \<Rightarrow> string" where
  \<comment> \<open>\<open>posixpath.basename\<close>: what follows the last \<open>/\<close>\<close>
  "posix_basename [] = []"
| "posix_basename (c # cs) =
     (if CHR ''/'' \<in> set cs then posix_basename cs
      else if c = CHR ''/'' then cs else c # cs)"

text \<open>
  \<open>run_one_round\<close>, lines 146-147: the flag \<open>self.is_test_mode\<close>. \<open>os.path.basename\<close>
  depends on the platform and is a parameter.
\<close>

definition is_test_mode :: "(string \<Rightarrow> string) \<Rightarrow> string option \<Rightarrow> bool" where
  "is_test_mode basename full_excel_path =
     (let excel_basename =
            basename (case full_excel_path of
                        None \<Rightarrow> ''target_articles.xlsx''
                      | Some p \<Rightarrow> if p = [] then ''target_articles.xlsx'' else p)
      in contains ''test'' (map lower_char excel_basename))"

subsection \<open>The full-success check\<close>

definition is_full_success :: "target list \<Rightarrow> db \<Rightarrow> bool" where
  "is_full_success attempted_accounts st =
     (if attempted_accounts = [] then False
      else let ids = filter (\<lambda>i. i \<noteq> []) (map target_id attempted_accounts)
           in if ids = [] then False
              else if \<not> conn_ok st then False
              else let rows = filter (\<lambda>a. account_id a \<in> set ids) (fx_account_status st)
                   in if rows = [] then False
                      else list_all (\<lambda>row. status row = COMPLETED) rows)"

subsection \<open>Running the crawl executable\<close>

text \<open>
  What \<open>subprocess.run\<close> does: it returns with an exit code, or raises
  \<open>TimeoutExpired\<close>, or raises something else. The child process writes to the
  database while it runs, so the call is a function from the database to an outcome
  and the database it leaves.
\<close>

datatype proc_result = Returned int | TimeoutExpired | OtherException string

type_synonym subprocess = "db \<Rightarrow> proc_result \<times> db"

definition record_and_mark_unfinished :: "datetime \<Rightarrow> db \<Rightarrow> db" where
  \<comment> \<open>\<open>record_current_failures_to_compensation()\<close>, then \<open>mark_crawl_unfinished(...)\<close>\<close>
  "record_and_mark_unfinished now st =
     snd (mark_crawl_unfinished now (snd (record_current_failures_to_compensation now st)))"

definition mark_all_completed :: "datetime \<Rightarrow> target list \<Rightarrow> db \<Rightarrow> db" where
  "mark_all_completed now attempted st =
     foldl (\<lambda>s r. snd (mark_compensation_completed now (target_id r) s)) st attempted"

definition mark_all_failed :: "datetime \<Rightarrow> string \<Rightarrow> target list \<Rightarrow> db \<Rightarrow> db" where
  "mark_all_failed now reason attempted st =
     foldl (\<lambda>s r. snd (mark_compensation_failed now (target_id r) (Some reason) s)) st attempted"

text \<open>
  \<open>_run_cmd\<close>. \<open>test_mode\<close> is \<open>self.is_test_mode\<close>, \<open>script_exists\<close> is
  \<open>os.path.exists(cmd[1])\<close>, \<open>mode\<close> is the string the caller passes. The handling after
  the child process is taken at one clock reading \<open>now\<close>. The result is the database
  when \<open>_run_cmd\<close> returns.
\<close>

definition run_cmd :: "bool \<Rightarrow> bool \<Rightarrow> subprocess \<Rightarrow> string \<Rightarrow> target list \<Rightarrow> datetime \<Rightarrow> db \<Rightarrow> db" where
  "run_cmd test_mode script_exists proc mode attempted_accounts now st =
     (if \<not> script_exists then st
      else case proc st of
        (Returned returncode, st1) \<Rightarrow>
          if returncode = 0 then
            (if mode = ''full'' then
               (if is_full_success attempted_accounts st1
                then (if \<not> test_mode then snd (resolve_crawl_exception now st1) else st1)
                else (if \<not> test_mode then record_and_mark_unfinished now st1 else st1))
             else mark_all_completed now attempted_accounts st1)
          else
            (if mode = ''full'' then record_and_mark_unfinished now st1
             else mark_all_failed now ''subprocess failed; see console'' attempted_accounts st1)
      | (TimeoutExpired, st1) \<Rightarrow>
          if mode = ''full'' then record_and_mark_unfinished now st1
          else mark_all_failed now ''timeout'' attempted_accounts st1
      | (OtherException e, st1) \<Rightarrow>
          if mode = ''full'' then record_and_mark_unfinished now st1
          else mark_all_failed now (take 200 e) attempted_accounts st1)"

section \<open>EnhancedProxyManager: the proxy lease\<close>

subsection \<open>The provider's answer\<close>

text \<open>
  What \<open>response.json()\<close> returns. An object keeps its pairs in the order of the
  text; Python's decoder lets the last of several equal keys win. A number is falsy
  when it is zero; only that is used of it, so integers stand for all numbers.
\<close>

datatype json = JNull | JBool bool | JNum int | JStr string | JArr "json list" | JObj "(string \<times> json) list"

fun truthy :: "json \<Rightarrow> bool" where
  "truthy JNull = False"
| "truthy (JBool b) = b"
| "truthy (JNum n) = (n \<noteq> 0)"
| "truthy (JStr s) = (s \<noteq> [])"
| "truthy (JArr xs) = (xs \<noteq> [])"
| "truthy (JObj kvs) = (kvs \<noteq> [])"

definition dict_get :: "(string \<times> json) list \<Rightarrow> string \<Rightarrow> json" where
  \<comment> \<open>\<open>d.get(k)\<close>, with Python's None as \<open>JNull\<close>\<close>
  "dict_get kvs k = (case map_of (rev kvs) k of None \<Rightarrow> JNull | Some v \<Rightarrow> v)"

text \<open>
  One attempt of the loop of \<open>_get_new_proxy\<close> ends in one of three ways: a server
  address was found, the attempt failed and the loop goes on, or an exception that the
  two \<open>except\<close> clauses do not catch leaves the method (\<open>result.get\<close> on a JSON value
  that is not an object raises \<open>AttributeError\<close>). A request error and a body that is
  not JSON are the two caught exceptions.
\<close>

datatype response = RequestException | ValueError | Body json

datatype error = AttributeError

datatype attempt_result = Server json | AttemptFailed | Uncaught error

definition proxy_item_of :: "json \<Rightarrow> json" where
  \<comment> \<open>the three accepted shapes of \<open>data\<close>; \<open>JNull\<close> is Python's None\<close>
  "proxy_item_of data =
     (case data of
        JObj kvs \<Rightarrow>
          (case dict_get kvs ''ips'' of
             JArr (x # xs) \<Rightarrow> x
           | _ \<Rightarrow> data)
      | JArr (x # xs) \<Rightarrow> x
      | _ \<Rightarrow> JNull)"

definition server_of :: "json \<Rightarrow> json" where
  "server_of proxy_item = (case proxy_item of JObj kvs \<Rightarrow> dict_get kvs ''server'' | _ \<Rightarrow> JNull)"

definition parse_attempt :: "response \<Rightarrow> attempt_result" where
  "parse_attempt r =
     (case r of
        RequestException \<Rightarrow> AttemptFailed
      | ValueError \<Rightarrow> AttemptFailed
      | Body result \<Rightarrow>
          (case result of
             JObj kvs \<Rightarrow>
               if dict_get kvs ''code'' = JStr ''SUCCESS'' \<and> truthy (dict_get kvs ''data'')
               then (let server = server_of (proxy_item_of (dict_get kvs ''data''))
                     in if truthy server then Server server else AttemptFailed)
               else AttemptFailed
           | _ \<Rightarrow> Uncaught AttributeError))"

subsection \<open>The manager\<close>

text \<open>
  The fields of the object that the lease operations read or write. The configured
  durations are whole seconds. \<open>last_proxy_refresh\<close> is written and only logged; it is
  left out.
\<close>

record proxy_manager =
  enabled :: bool
  ip_lifetime :: int
  refresh_buffer :: int
  max_retries :: int
  retry_delay :: int
  fallback_after_failures :: int
  pm_consecutive_failures :: int
  upstream_proxy :: "string option"
  proxy_expiry_time :: "datetime option"

text \<open>
  The outside world of one call: the provider's answer to the attempt with a given
  index, the reading of \<open>datetime.now()\<close> taken when that attempt succeeds, and
  Python's \<open>str()\<close> of a server value that is not a string (used by the f-string).
\<close>

record provider =
  respond :: "nat \<Rightarrow> response"
  clock :: "nat \<Rightarrow> datetime"
  py_str :: "json \<Rightarrow> string"

datatype event = Acquire | Release | CallGetNewProxy | Request nat | Sleep int

fun is_request :: "event \<Rightarrow> bool" where
  \<comment> \<open>the events that are calls of the provider's HTTP API\<close>
  "is_request (Request i) = True"
| "is_request e = False"

definition format_server :: "provider \<Rightarrow> json \<Rightarrow> string" where
  "format_server pv server = (case server of JStr s \<Rightarrow> s | _ \<Rightarrow> py_str pv server)"

definition is_proxy_valid :: "datetime \<Rightarrow> proxy_manager \<Rightarrow> bool" where
  "is_proxy_valid now pm =
     (if \<not> enabled pm then False
      else case proxy_expiry_time pm of
             None \<Rightarrow> False
           | Some expiry \<Rightarrow>
               (let buffer_time = expiry - timedelta (refresh_buffer pm)
                in if now \<ge> buffer_time then False else True))"

text \<open>
  The loop \<open>for attempt in range(self.max_retries)\<close>: \<open>attempt\<close> is the index, \<open>k\<close> the
  number of iterations left. \<open>None\<close> says that the loop ran out without returning.
\<close>

fun attempts :: "provider \<Rightarrow> nat \<Rightarrow> nat \<Rightarrow> proxy_manager \<Rightarrow> (error + bool) option \<times> proxy_manager \<times> event list" where
  "attempts pv attempt 0 pm = (None, pm, [])"
| "attempts pv attempt (Suc k) pm =
     (case parse_attempt (respond pv attempt) of
        Server server \<Rightarrow>
          (Some (Inr True),
           pm\<lparr>upstream_proxy := Some (''http://'' @ format_server pv server),
              proxy_expiry_time := Some (clock pv attempt + timedelta (ip_lifetime pm)),
              pm_consecutive_failures := 0\<rparr>,
           [Request attempt])
      | Uncaught e \<Rightarrow> (Some (Inl e), pm, [Request attempt])
      | AttemptFailed \<Rightarrow>
          (let (r, pm', evs) = attempts pv (Suc attempt) k pm
           in (r, pm', Request attempt # (if k > 0 then [Sleep (retry_delay pm)] else []) @ evs)))"

definition get_new_proxy :: "provider \<Rightarrow> proxy_manager \<Rightarrow> (error + bool) \<times> proxy_manager \<times> event list" where
  "get_new_proxy pv pm =
     (case attempts pv 0 (nat (max_retries pm)) pm of
        (Some r, pm', evs) \<Rightarrow> (r, pm', CallGetNewProxy # evs)
      | (None, pm', evs) \<Rightarrow>
          (let pm1 = pm'\<lparr>pm_consecutive_failures := pm_consecutive_failures pm' + 1\<rparr>;
               pm2 = (if pm_consecutive_failures pm1 \<ge> fallback_after_failures pm1
                      then pm1\<lparr>enabled := False\<rparr> else pm1)
           in (Inr False, pm2, CallGetNewProxy # evs)))"

definition refresh_proxy_if_needed :: "datetime \<Rightarrow> provider \<Rightarrow> proxy_manager \<Rightarrow> (error + bool) \<times> proxy_manager \<times> event list" where
  "refresh_proxy_if_needed now pv pm =
     (if \<not> enabled pm then (Inr False, pm, [])
      else if is_proxy_valid now pm then (Inr True, pm, [Acquire, Release])
      else (case get_new_proxy pv pm of
              (r, pm', evs) \<Rightarrow> (r, pm', Acquire # evs @ [Release])))"

definition get_current_proxy :: "datetime \<Rightarrow> provider \<Rightarrow> proxy_manager \<Rightarrow> (error + string option) \<times> proxy_manager \<times> event list" where
  "get_current_proxy now pv pm =
     (if \<not> enabled pm then (Inr None, pm, [])
      else case refresh_proxy_if_needed now pv pm of
             (Inl e, pm', evs) \<Rightarrow> (Inl e, pm', evs)
           | (Inr ok, pm', evs) \<Rightarrow>
               if \<not> ok then (Inr None, pm', evs)
               else (Inr (upstream_proxy pm'), pm', evs))"

text \<open>
  A history of the manager: any sequence of calls of its lease operations, each with
  the clock reading and the outside world it meets.
\<close>

datatype call = GetCurrentProxy datetime provider | RefreshIfNeeded datetime provider | GetNewProxy provider

fun step :: "proxy_manager \<Rightarrow> call \<Rightarrow> proxy_manager" where
  "step pm (GetCurrentProxy now pv) = fst (snd (get_current_proxy now pv pm))"
| "step pm (RefreshIfNeeded now pv) = fst (snd (refresh_proxy_if_needed now pv pm))"
| "step pm (GetNewProxy pv) = fst (snd (get_new_proxy pv pm))"

definition run_calls :: "proxy_manager \<Rightarrow> call list \<Rightarrow> proxy_manager" where
  "run_calls pm cs = foldl step pm cs"

section \<open>Example states\<close>

text \<open>Concrete rows and databases on which the theorems below are run.\<close>

definition example_now :: datetime where
  \<comment> \<open>01:00 on day 20000\<close>
  "example_now = timedelta (20000 * 86400 + 3600)"

definition example_account :: "string \<Rightarrow> status \<Rightarrow> string option \<Rightarrow> date option \<Rightarrow> account" where
  "example_account aid s msg lfd =
     \<lparr>account_id = aid, account_name = ''name of '' @ aid, status = s, retry_count = 0,
      last_exception_msg = msg, next_retry_time = None, compensation_priority = Some 0,
      consecutive_failures = Some 0, last_failed_date = lfd, failed_reason_backup = None,
      create_time = 0, update_time = 0, last_update_time = 0\<rparr>"

definition example_record :: "string \<Rightarrow> date \<Rightarrow> compensation_state \<Rightarrow> compensation" where
  "example_record aid d cs =
     \<lparr>c_account_id = aid, c_account_name = ''name of '' @ aid, failed_date = d,
      failure_reason = Some ''earlier'', compensation_status = cs, compensation_date = None,
      c_create_time = 0, c_update_time = 0\<rparr>"

definition example_db :: "account list \<Rightarrow> compensation list \<Rightarrow> db" where
  "example_db as cs =
     \<lparr>conn_ok = True, fx_account_status = as, fx_compensation_history = cs, fx_crawl_exception = []\<rparr>"

definition example_target :: "string \<Rightarrow> target" where
  "example_target aid = \<lparr>target_id = aid, target_name = ''name of '' @ aid\<rparr>"

definition example_proc :: "proc_result \<Rightarrow> subprocess" where
  \<comment> \<open>a child process that ends as given and leaves the database as it found it\<close>
  "example_proc r st = (r, st)"

definition example_manager :: proxy_manager where
  \<comment> \<open>the defaults of the constructor\<close>
  "example_manager =
     \<lparr>enabled = True, ip_lifetime = 60, refresh_buffer = 10, max_retries = 3, retry_delay = 5,
      fallback_after_failures = 3, pm_consecutive_failures = 0, upstream_proxy = None,
      proxy_expiry_time = None\<rparr>"

definition failing_provider :: provider where
  "failing_provider = \<lparr>respond = (\<lambda>i. RequestException), clock = (\<lambda>i. 0), py_str = (\<lambda>j. [])\<rparr>"

definition good_provider :: "datetime \<Rightarrow> provider" where
  \<comment> \<open>answers every request with a well-formed body, at clock reading \<open>t\<close>\<close>
  "good_provider t =
     \<lparr>respond = (\<lambda>i. Body (JObj [(''code'', JStr ''SUCCESS''),
                                   (''data'', JArr [JObj [(''server'', JStr ''10.0.0.1:8000'')]])])),
      clock = (\<lambda>i. t), py_str = (\<lambda>j. [])\<rparr>"

section \<open>Properties of the smart reset\<close>

subsection \<open>Auxiliary facts\<close>

lemma reset_status_pending: "status (reset_status now r) = PENDING"
  by (simp add: reset_status_def)

lemma record_failed_accounts: "fx_account_status (snd (record_failed_accounts_for_compensation now d st)) = fx_account_status st"
  by (simp add: record_failed_accounts_for_compensation_def Let_def)

lemma record_failed_conn: "conn_ok (snd (record_failed_accounts_for_compensation now d st)) = conn_ok st"
  by (simp add: record_failed_accounts_for_compensation_def Let_def)


lemma reset_accounts:
  "conn_ok st \<Longrightarrow> fx_account_status (snd (reset_all_accounts_to_pending now st)) =
     map (reset_status now \<circ> update_compensation (date_of now)) (fx_account_status st)"
  by (simp add: reset_all_accounts_to_pending_def Let_def record_failed_accounts)

lemma reset_all_pending:
  "conn_ok st \<Longrightarrow> a \<in> set (fx_account_status (snd (reset_all_accounts_to_pending now st))) \<Longrightarrow> status a = PENDING"
  by (auto simp: reset_accounts reset_status_pending)

lemma reset_conn: "conn_ok (snd (reset_all_accounts_to_pending now st)) = conn_ok st"
  by (simp add: reset_all_accounts_to_pending_def Let_def record_failed_conn)

lemma update_compensation_pending: "status r = PENDING \<Longrightarrow> update_compensation d r = r"
  by (simp add: update_compensation_def)

lemma reset_status_id: "status r = PENDING \<Longrightarrow> reset_status now r = r"
  by (simp add: reset_status_def)

lemma reset_noop:
  assumes "\<forall>a \<in> set (fx_account_status st). status a = PENDING"
  shows "snd (reset_all_accounts_to_pending now st) = st"
proof (cases "conn_ok st")
  case False
  then show ?thesis by (simp add: reset_all_accounts_to_pending_def)
next
  case True
  have f: "filter is_failed (fx_account_status st) = []"
    using assms by (auto simp: filter_empty_conv is_failed_def)
  have m: "map (reset_status now \<circ> update_compensation (date_of now)) (fx_account_status st) = fx_account_status st"
    using assms by (simp add: map_idI update_compensation_pending reset_status_id)
  show ?thesis using True
    by (simp add: reset_all_accounts_to_pending_def Let_def record_failed_accounts_for_compensation_def f m)
qed

lemma update_compensation_cf: "consecutive_failures (update_compensation d r) = consecutive_failures r"
  by (auto simp: update_compensation_def set_consecutive_failures_def set_compensation_priority_def
      set_last_failed_date_def set_failed_reason_backup_def is_failed_def date_before_def)

lemma reset_status_cf: "consecutive_failures (reset_status now r) = consecutive_failures r"
  by (simp add: reset_status_def)


lemma date_example: "date_of example_now = 20000"
  by (simp add: date_of_def example_now_def timedelta_def)


lemma list_ex_map_touch:
  "list_ex (same_key k d') (map (\<lambda>c. if same_key k0 d0 c then c\<lparr>failure_reason := r, c_update_time := t\<rparr> else c) cs)
     = list_ex (same_key k d') cs"
  by (induction cs) (simp_all add: same_key_def)

lemma map_touch_origin:
  "c \<in> set (map (\<lambda>c. if same_key k0 d0 c then c\<lparr>failure_reason := r, c_update_time := t\<rparr> else c) cs) \<Longrightarrow>
     \<exists>c0 \<in> set cs. c_account_id c0 = c_account_id c \<and> failed_date c0 = failed_date c
                          \<and> compensation_status c0 = compensation_status c"
  by (induction cs) (auto split: if_splits)

lemma upsert_has_key: "list_ex (same_key (account_id a) d) (upsert_pending now d cs a)"
proof (cases "list_ex (same_key (account_id a) d) cs")
  case True
  then show ?thesis by (simp add: upsert_pending_def list_ex_map_touch)
next
  case False
  then show ?thesis by (simp add: upsert_pending_def same_key_def)
qed

lemma upsert_keeps_key:
  assumes "list_ex (same_key k d') cs"
  shows "list_ex (same_key k d') (upsert_pending now d cs a)"
proof (cases "list_ex (same_key (account_id a) d) cs")
  case True
  then show ?thesis using assms by (simp add: upsert_pending_def list_ex_map_touch)
next
  case False
  then show ?thesis using assms by (simp add: upsert_pending_def)
qed

lemma upsert_origin:
  assumes "c \<in> set (upsert_pending now d cs a)"
  shows "compensation_status c = C_PENDING
     \<or> (\<exists>c0 \<in> set cs. c_account_id c0 = c_account_id c \<and> failed_date c0 = failed_date c
                          \<and> compensation_status c0 = compensation_status c)"
proof (cases "list_ex (same_key (account_id a) d) cs")
  case True
  with assms have "c \<in> set (map (\<lambda>c. if same_key (account_id a) d c
                      then c\<lparr>failure_reason := Some (failure_reason_of a), c_update_time := now\<rparr>
                      else c) cs)"
    by (simp add: upsert_pending_def)
  from map_touch_origin[OF this] show ?thesis by simp
next
  case False
  with assms show ?thesis by (auto simp: upsert_pending_def)
qed

lemma foldl_upsert_keeps_key:
  "list_ex (same_key k d') cs \<Longrightarrow> list_ex (same_key k d') (foldl (upsert_pending now d) cs as)"
  by (induction as arbitrary: cs) (simp_all add: upsert_keeps_key)

lemma foldl_upsert_has_key:
  "a \<in> set as \<Longrightarrow> list_ex (same_key (account_id a) d) (foldl (upsert_pending now d) cs as)"
proof (induction as arbitrary: cs)
  case Nil
  then show ?case by simp
next
  case (Cons x xs)
  show ?case
  proof (cases "a = x")
    case True
    then show ?thesis by (simp add: foldl_upsert_keeps_key upsert_has_key)
  next
    case False
    with Cons show ?thesis by simp
  qed
qed

lemma foldl_upsert_origin:
  "c \<in> set (foldl (upsert_pending now d) cs as) \<Longrightarrow>
     compensation_status c = C_PENDING
     \<or> (\<exists>c0 \<in> set cs. c_account_id c0 = c_account_id c \<and> failed_date c0 = failed_date c
                          \<and> compensation_status c0 = compensation_status c)"
proof (induction as arbitrary: cs)
  case Nil
  then show ?case by auto
next
  case (Cons x xs)
  from Cons.IH[of "upsert_pending now d cs x"] Cons.prems
  consider "compensation_status c = C_PENDING"
    | c1 where "c1 \<in> set (upsert_pending now d cs x)" "c_account_id c1 = c_account_id c"
        "failed_date c1 = failed_date c" "compensation_status c1 = compensation_status c"
    by auto
  then show ?case
  proof cases
    case 1
    then show ?thesis by simp
  next
    case 2
    from upsert_origin[OF 2(1)] 2 show ?thesis by auto
  qed
qed

lemma reset_history:
  "conn_ok st \<Longrightarrow> fx_compensation_history (snd (reset_all_accounts_to_pending now st)) =
     foldl (upsert_pending now (date_of now)) (fx_compensation_history st) (filter is_failed (fx_account_status st))"
  by (simp add: reset_all_accounts_to_pending_def Let_def record_failed_accounts_for_compensation_def)

lemma reset_row_id: "account_id (reset_status now (update_compensation d r)) = account_id r"
  by (simp add: reset_status_def update_compensation_def set_consecutive_failures_def set_compensation_priority_def
      set_last_failed_date_def set_failed_reason_backup_def)


lemma key_status_touch:
  "map key_status (map (\<lambda>c. if same_key k0 d0 c then c\<lparr>failure_reason := r, c_update_time := t\<rparr> else c) cs)
     = map key_status cs"
  by (induction cs) (simp_all add: key_status_def)

lemma list_ex_key_status:
  "list_ex (same_key k d) cs \<longleftrightarrow> (\<exists>s. (k, d, s) \<in> set (map key_status cs))"
  by (induction cs) (auto simp: same_key_def key_status_def)

lemma upsert_key_status:
  "map key_status (upsert_pending now d cs a) =
     (if list_ex (same_key (account_id a) d) cs then map key_status cs
      else map key_status cs @ [(account_id a, d, C_PENDING)])"
  by (simp add: upsert_pending_def key_status_touch) (simp add: key_status_def)

lemma foldl_upsert_key_status:
  "\<exists>extra. map key_status (foldl (upsert_pending now d) cs as) = map key_status cs @ extra
       \<and> (\<forall>t \<in> set extra. \<exists>k. t = (k, d, C_PENDING) \<and> \<not> list_ex (same_key k d) cs)"
proof (induction as arbitrary: cs)
  case Nil
  show ?case by simp
next
  case (Cons a as)
  from Cons.IH[of "upsert_pending now d cs a"] obtain extra where
    e: "map key_status (foldl (upsert_pending now d) (upsert_pending now d cs a) as)
          = map key_status (upsert_pending now d cs a) @ extra"
    and p: "\<forall>t \<in> set extra. \<exists>k. t = (k, d, C_PENDING) \<and> \<not> list_ex (same_key k d) (upsert_pending now d cs a)"
    by blast
  have keep: "\<not> list_ex (same_key k d) (upsert_pending now d cs a) \<Longrightarrow> \<not> list_ex (same_key k d) cs" for k
    using upsert_keeps_key by blast
  show ?case
  proof (cases "list_ex (same_key (account_id a) d) cs")
    case True
    with e have "map key_status (foldl (upsert_pending now d) cs (a # as)) = map key_status cs @ extra"
      by (simp add: upsert_key_status)
    moreover have "\<forall>t \<in> set extra. \<exists>k. t = (k, d, C_PENDING) \<and> \<not> list_ex (same_key k d) cs"
      using p keep by blast
    ultimately show ?thesis by blast
  next
    case False
    with e have "map key_status (foldl (upsert_pending now d) cs (a # as))
                   = map key_status cs @ ((account_id a, d, C_PENDING) # extra)"
      by (simp add: upsert_key_status)
    moreover have "\<forall>t \<in> set ((account_id a, d, C_PENDING) # extra).
                      \<exists>k. t = (k, d, C_PENDING) \<and> \<not> list_ex (same_key k d) cs"
      using p keep False by auto
    ultimately show ?thesis by blast
  qed
qed

lemma filter_key_status:
  "map compensation_status (filter (same_key k d) cs)
     = map (\<lambda>t. snd (snd t)) (filter (\<lambda>t. fst t = k \<and> fst (snd t) = d) (map key_status cs))"
  by (induction cs) (simp_all add: same_key_def key_status_def)

lemma foldl_upsert_prefix:
  "map key_status (take (length cs) (foldl (upsert_pending now d) cs as)) = map key_status cs"
proof -
  from foldl_upsert_key_status[of now d cs as] obtain extra where
    "map key_status (foldl (upsert_pending now d) cs as) = map key_status cs @ extra" by blast
  then have "take (length cs) (map key_status (foldl (upsert_pending now d) cs as)) = map key_status cs"
    by simp
  then show ?thesis by (simp add: take_map)
qed

lemma foldl_upsert_existing:
  assumes "list_ex (same_key k d) cs"
  shows "map compensation_status (filter (same_key k d) (foldl (upsert_pending now d) cs as))
           = map compensation_status (filter (same_key k d) cs)"
proof -
  from foldl_upsert_key_status[of now d cs as] obtain extra where
    e: "map key_status (foldl (upsert_pending now d) cs as) = map key_status cs @ extra"
    and p: "\<forall>t \<in> set extra. \<exists>k. t = (k, d, C_PENDING) \<and> \<not> list_ex (same_key k d) cs"
    by blast
  have "filter (\<lambda>t. fst t = k \<and> fst (snd t) = d) extra = []"
    using p assms by (auto simp: filter_empty_conv)
  then show ?thesis by (simp add: filter_key_status e)
qed

lemma foldl_upsert_fresh:
  assumes "\<not> list_ex (same_key k d) cs" and "c \<in> set (foldl (upsert_pending now d) cs as)"
    and "same_key k d c"
  shows "compensation_status c = C_PENDING"
proof -
  from foldl_upsert_key_status[of now d cs as] obtain extra where
    e: "map key_status (foldl (upsert_pending now d) cs as) = map key_status cs @ extra"
    and p: "\<forall>t \<in> set extra. \<exists>k. t = (k, d, C_PENDING) \<and> \<not> list_ex (same_key k d) cs"
    by blast
  from assms(2) have "key_status c \<in> set (map key_status (foldl (upsert_pending now d) cs as))"
    by simp
  with e have "key_status c \<in> set (map key_status cs) \<or> key_status c \<in> set extra"
    by simp
  then show ?thesis
  proof
    assume "key_status c \<in> set (map key_status cs)"
    with assms(3) have "\<exists>s. (k, d, s) \<in> set (map key_status cs)"
      by (auto simp: same_key_def key_status_def)
    with assms(1) show ?thesis by (simp add: list_ex_key_status)
  next
    assume "key_status c \<in> set extra"
    with p show ?thesis by (auto simp: key_status_def)
  qed
qed

subsection \<open>Idempotence\<close>

text \<open>
  Claim C9. Calling \<open>reset_all_accounts_to_pending\<close> twice in succession leaves the
  database exactly as one call does, timestamps included: after the first call no row
  has a status other than PENDING, so the flush, the snapshot statement and the reset
  statement of the second call match no row. When the connection is usable the second
  call returns True.
\<close>

theorem reset_twice_same_as_once:
  "snd (reset_all_accounts_to_pending t2 (snd (reset_all_accounts_to_pending t1 st)))
     = snd (reset_all_accounts_to_pending t1 st)
   \<and> (conn_ok st \<longrightarrow>
        fst (reset_all_accounts_to_pending t2 (snd (reset_all_accounts_to_pending t1 st))) = True
        \<and> filter (\<lambda>a. status a \<noteq> PENDING) (fx_account_status (snd (reset_all_accounts_to_pending t1 st))) = [])"
proof (cases "conn_ok st")
  case False
  then show ?thesis by (simp add: reset_all_accounts_to_pending_def)
next
  case True
  have p: "\<forall>a \<in> set (fx_account_status (snd (reset_all_accounts_to_pending t1 st))). status a = PENDING"
    using True reset_all_pending by blast
  have s: "fst (reset_all_accounts_to_pending t2 (snd (reset_all_accounts_to_pending t1 st))) = True"
    using True reset_conn[of t1 st] by (simp add: reset_all_accounts_to_pending_def[of t2] Let_def)
  show ?thesis using reset_noop[OF p] s p by (simp add: filter_empty_conv)
qed


text \<open>The theorem at a database with one failed and one completed account.\<close>

theorem reset_twice_same_as_once_witness:
  "snd (reset_all_accounts_to_pending (example_now + 5) (snd (reset_all_accounts_to_pending example_now
      (example_db [example_account ''A'' EXCEPTION (Some ''boom'') None, example_account ''B'' COMPLETED None None] []))))
   = snd (reset_all_accounts_to_pending example_now
      (example_db [example_account ''A'' EXCEPTION (Some ''boom'') None, example_account ''B'' COMPLETED None None] []))
   \<and> fst (reset_all_accounts_to_pending (example_now + 5) (snd (reset_all_accounts_to_pending example_now
      (example_db [example_account ''A'' EXCEPTION (Some ''boom'') None, example_account ''B'' COMPLETED None None] []))))"
  using reset_twice_same_as_once[of "example_now + 5" example_now "example_db [example_account ''A'' EXCEPTION (Some ''boom'') None, example_account ''B'' COMPLETED None None] []"]
  by (simp add: example_db_def)


subsection \<open>The failure counter\<close>

text \<open>
  The guard of the fourth assignment of \<open>update_compensation_sql\<close> repeats the guard of
  the second, \<open>last_failed_date IS NULL OR last_failed_date < today\<close>. Whenever the
  second assignment fires it has just set \<open>last_failed_date\<close> to today, and whenever it
  does not fire the guard was false already; so the fourth assignment never increments,
  and the reset leaves every \<open>consecutive_failures\<close> as it was.
\<close>

lemma reset_keeps_consecutive_failures:
  "map consecutive_failures (fx_account_status (snd (reset_all_accounts_to_pending now st)))
     = map consecutive_failures (fx_account_status st)"
  by (cases "conn_ok st") (simp_all add: reset_accounts update_compensation_cf reset_status_cf, simp add: reset_all_accounts_to_pending_def)

text \<open>
  Claim C1 says that the reset increments \<open>consecutive_failures\<close> of a failed account
  by one when its \<open>last_failed_date\<close> is not yet today. On an account in EXCEPTION that
  never failed before (\<open>last_failed_date\<close> NULL, counter 0) the reset sets
  \<open>last_failed_date\<close> to today and the status to PENDING, and the counter is still 0.
\<close>

theorem reset_does_not_count_failure:
  "map consecutive_failures (fx_account_status (snd (reset_all_accounts_to_pending example_now
      (example_db [example_account ''A'' EXCEPTION (Some ''boom'') None] [])))) = [Some 0]
   \<and> map last_failed_date (fx_account_status (snd (reset_all_accounts_to_pending example_now
      (example_db [example_account ''A'' EXCEPTION (Some ''boom'') None] [])))) = [Some 20000]
   \<and> map status (fx_account_status (snd (reset_all_accounts_to_pending example_now
      (example_db [example_account ''A'' EXCEPTION (Some ''boom'') None] [])))) = [PENDING]"
  by (simp add: reset_accounts example_db_def example_account_def date_example
      update_compensation_def set_consecutive_failures_def set_compensation_priority_def
      set_last_failed_date_def set_failed_reason_backup_def is_failed_def date_before_def reset_status_def)


subsection \<open>The compensation snapshot\<close>

text \<open>
  Claim C4, as stated, asks for a PENDING record of today after the reset. An account
  in EXCEPTION whose record of today is already COMPLETED keeps that record: the
  upsert rewrites the reason and the update time only.
\<close>

theorem reset_keeps_closed_record_counterexample:
  "map status (fx_account_status (example_db [example_account ''A'' EXCEPTION (Some ''boom'') None]
        [example_record ''A'' 20000 C_COMPLETED])) = [EXCEPTION]
   \<and> map compensation_status (fx_compensation_history (snd (reset_all_accounts_to_pending example_now
      (example_db [example_account ''A'' EXCEPTION (Some ''boom'') None]
        [example_record ''A'' 20000 C_COMPLETED])))) = [C_COMPLETED]"
  by (simp add: reset_history example_db_def example_account_def example_record_def date_example
      upsert_pending_def same_key_def is_failed_def)


text \<open>
  Claim C4, amended. For every account in EXCEPTION or FAILED before the reset, after
  the reset its row is PENDING and the compensation table holds a record for that
  account with \<open>failed_date\<close> today. When no record of that account and date was
  there before the reset, every such record is PENDING. When one was there, the
  records of that account and date are the ones from before, each with the
  \<open>compensation_status\<close> it had: the flush rewrites the reason and the update time
  only. In any case every record that was in the table is still at its place with
  its account, date and status.
\<close>

theorem reset_flushes_failed_accounts:
  assumes "conn_ok st" and "i < length (fx_account_status st)" and "is_failed (fx_account_status st ! i)"
  shows "status (fx_account_status (snd (reset_all_accounts_to_pending now st)) ! i) = PENDING
       \<and> account_id (fx_account_status (snd (reset_all_accounts_to_pending now st)) ! i)
           = account_id (fx_account_status st ! i)
       \<and> (\<exists>c \<in> set (fx_compensation_history (snd (reset_all_accounts_to_pending now st))).
             c_account_id c = account_id (fx_account_status st ! i) \<and> failed_date c = date_of now
             \<and> (compensation_status c = C_PENDING
                  \<or> (\<exists>c0 \<in> set (fx_compensation_history st).
                        c_account_id c0 = c_account_id c \<and> failed_date c0 = failed_date c
                        \<and> compensation_status c0 = compensation_status c)))
       \<and> (\<not> list_ex (same_key (account_id (fx_account_status st ! i)) (date_of now)) (fx_compensation_history st) \<longrightarrow>
             (\<forall>c \<in> set (fx_compensation_history (snd (reset_all_accounts_to_pending now st))).
                 same_key (account_id (fx_account_status st ! i)) (date_of now) c \<longrightarrow> compensation_status c = C_PENDING))
       \<and> (list_ex (same_key (account_id (fx_account_status st ! i)) (date_of now)) (fx_compensation_history st) \<longrightarrow>
             map compensation_status (filter (same_key (account_id (fx_account_status st ! i)) (date_of now))
                   (fx_compensation_history (snd (reset_all_accounts_to_pending now st))))
             = map compensation_status (filter (same_key (account_id (fx_account_status st ! i)) (date_of now))
                   (fx_compensation_history st)))
       \<and> map key_status (take (length (fx_compensation_history st))
               (fx_compensation_history (snd (reset_all_accounts_to_pending now st))))
           = map key_status (fx_compensation_history st)"
proof -
  let ?a = "fx_account_status st ! i"
  let ?new = "fx_compensation_history (snd (reset_all_accounts_to_pending now st))"
  have new: "?new = foldl (upsert_pending now (date_of now)) (fx_compensation_history st)
                             (filter is_failed (fx_account_status st))"
    using assms(1) by (rule reset_history)
  have mem: "?a \<in> set (filter is_failed (fx_account_status st))"
    using assms by simp
  have "list_ex (same_key (account_id ?a) (date_of now)) ?new"
    using foldl_upsert_has_key[OF mem] by (simp add: new)
  then obtain c where c: "c \<in> set ?new"
      "c_account_id c = account_id ?a" "failed_date c = date_of now"
    by (auto simp: list_ex_iff same_key_def)
  from c(1) have "c \<in> set (foldl (upsert_pending now (date_of now)) (fx_compensation_history st)
                             (filter is_failed (fx_account_status st)))"
    by (simp add: new)
  from foldl_upsert_origin[OF this] c
  have ex: "\<exists>c \<in> set ?new.
             c_account_id c = account_id ?a \<and> failed_date c = date_of now
             \<and> (compensation_status c = C_PENDING
                  \<or> (\<exists>c0 \<in> set (fx_compensation_history st).
                        c_account_id c0 = c_account_id c \<and> failed_date c0 = failed_date c
                        \<and> compensation_status c0 = compensation_status c))"
    by blast
  have st: "status (fx_account_status (snd (reset_all_accounts_to_pending now st)) ! i) = PENDING"
    using assms(1,2) by (simp add: reset_accounts reset_status_pending)
  have id: "account_id (fx_account_status (snd (reset_all_accounts_to_pending now st)) ! i) = account_id ?a"
    using assms(1,2) by (simp add: reset_accounts reset_row_id)
  have fresh: "\<not> list_ex (same_key (account_id ?a) (date_of now)) (fx_compensation_history st) \<longrightarrow>
             (\<forall>c \<in> set ?new. same_key (account_id ?a) (date_of now) c \<longrightarrow> compensation_status c = C_PENDING)"
    unfolding new using foldl_upsert_fresh by blast
  have old: "list_ex (same_key (account_id ?a) (date_of now)) (fx_compensation_history st) \<longrightarrow>
             map compensation_status (filter (same_key (account_id ?a) (date_of now)) ?new)
             = map compensation_status (filter (same_key (account_id ?a) (date_of now)) (fx_compensation_history st))"
    unfolding new using foldl_upsert_existing by blast
  have pre: "map key_status (take (length (fx_compensation_history st)) ?new)
           = map key_status (fx_compensation_history st)"
    unfolding new by (rule foldl_upsert_prefix)
  from st id ex fresh old pre show ?thesis by blast
qed

text \<open>
  The theorem at two failed accounts: \<open>A\<close> has no earlier record and gets a PENDING
  one, \<open>B\<close> has a COMPLETED record of today, which stays COMPLETED.
\<close>

theorem reset_flushes_failed_accounts_witness:
  "status (fx_account_status (snd (reset_all_accounts_to_pending example_now
      (example_db [example_account ''A'' EXCEPTION (Some ''boom'') None, example_account ''B'' FAILED None None]
                  [example_record ''B'' 20000 C_COMPLETED]))) ! 0) = PENDING
   \<and> list_ex (\<lambda>c. same_key ''A'' 20000 c \<and> compensation_status c = C_PENDING)
        (fx_compensation_history (snd (reset_all_accounts_to_pending example_now
          (example_db [example_account ''A'' EXCEPTION (Some ''boom'') None, example_account ''B'' FAILED None None]
                  [example_record ''B'' 20000 C_COMPLETED]))))
   \<and> map compensation_status (filter (same_key ''B'' 20000)
        (fx_compensation_history (snd (reset_all_accounts_to_pending example_now
          (example_db [example_account ''A'' EXCEPTION (Some ''boom'') None, example_account ''B'' FAILED None None]
                  [example_record ''B'' 20000 C_COMPLETED]))))) = [C_COMPLETED]"
proof -
  let ?db = "example_db [example_account ''A'' EXCEPTION (Some ''boom'') None, example_account ''B'' FAILED None None]
                  [example_record ''B'' 20000 C_COMPLETED]"
  let ?new = "fx_compensation_history (snd (reset_all_accounts_to_pending example_now ?db))"
  have c: "conn_ok ?db" by (simp add: example_db_def)
  have i0: "0 < length (fx_account_status ?db)" and i1: "1 < length (fx_account_status ?db)"
    by (simp_all add: example_db_def)
  have f0: "is_failed (fx_account_status ?db ! 0)" and f1: "is_failed (fx_account_status ?db ! 1)"
    by (simp_all add: example_db_def example_account_def is_failed_def)
  have a0: "account_id (fx_account_status ?db ! 0) = ''A''" and a1: "account_id (fx_account_status ?db ! 1) = ''B''"
    by (simp_all add: example_db_def example_account_def)
  have noA: "\<not> list_ex (same_key ''A'' 20000) (fx_compensation_history ?db)"
    by (simp add: example_db_def example_record_def same_key_def)
  have hasB: "list_ex (same_key ''B'' 20000) (fx_compensation_history ?db)"
    by (simp add: example_db_def example_record_def same_key_def)
  have oldB: "map compensation_status (filter (same_key ''B'' 20000) (fx_compensation_history ?db)) = [C_COMPLETED]"
    by (simp add: example_db_def example_record_def same_key_def)
  note t0 = reset_flushes_failed_accounts[OF c i0 f0, of example_now, unfolded a0 date_example]
  note t1 = reset_flushes_failed_accounts[OF c i1 f1, of example_now, unfolded a1 date_example]
  from t0 have s: "status (fx_account_status (snd (reset_all_accounts_to_pending example_now ?db)) ! 0) = PENDING"
    by blast
  from t0 obtain c where "c \<in> set ?new" "c_account_id c = ''A''" "failed_date c = 20000"
    by blast
  moreover from t0 noA have "\<forall>c \<in> set ?new. same_key ''A'' 20000 c \<longrightarrow> compensation_status c = C_PENDING"
    by blast
  ultimately have a: "list_ex (\<lambda>c. same_key ''A'' 20000 c \<and> compensation_status c = C_PENDING) ?new"
    by (auto simp: list_ex_iff same_key_def)
  from t1 hasB oldB have b: "map compensation_status (filter (same_key ''B'' 20000) ?new) = [C_COMPLETED]"
    by simp
  from s a b show ?thesis by blast
qed


section \<open>Properties of closing compensation records\<close>

lemma completed_history:
  "conn_ok st \<Longrightarrow> fx_compensation_history (snd (mark_compensation_completed now X st)) =
     map (\<lambda>c. if in_window (date_of now) X c
               then c\<lparr>compensation_status := C_COMPLETED,
                      compensation_date := Some (date_of now), c_update_time := now\<rparr>
               else c) (fx_compensation_history st)"
  by (simp add: mark_compensation_completed_def)

lemma completed_accounts:
  "conn_ok st \<Longrightarrow> fx_account_status (snd (mark_compensation_completed now X st)) =
     map (\<lambda>a. if account_id a = X
               then a\<lparr>compensation_priority := Some 0, consecutive_failures := Some 0,
                      last_update_time := now, update_time := now\<rparr>
               else a) (fx_account_status st)"
  by (simp add: mark_compensation_completed_def)

lemma completed_ledger:
  "fx_crawl_exception (snd (mark_compensation_completed now X st)) = fx_crawl_exception st"
  by (simp add: mark_compensation_completed_def)

lemma completed_conn:
  "conn_ok (snd (mark_compensation_completed now X st)) = conn_ok st"
  by (simp add: mark_compensation_completed_def)


text \<open>
  Claim C8. \<open>mark_compensation_completed(X)\<close> rewrites exactly the records of \<open>X\<close>
  that are PENDING with \<open>failed_date\<close> no older than seven days; every other record is
  left as it is, in particular one whose \<open>failed_date\<close> is ten days ago. Every row of
  \<open>X\<close> in the account table gets \<open>compensation_priority\<close> 0 and
  \<open>consecutive_failures\<close> 0 all the same.
\<close>

theorem mark_compensation_completed_window:
  assumes "conn_ok st"
  shows "fst (mark_compensation_completed now X st) = True
       \<and> length (fx_compensation_history (snd (mark_compensation_completed now X st)))
           = length (fx_compensation_history st)
       \<and> (\<forall>i < length (fx_compensation_history st).
            fx_compensation_history (snd (mark_compensation_completed now X st)) ! i =
              (if c_account_id (fx_compensation_history st ! i) = X
                  \<and> compensation_status (fx_compensation_history st ! i) = C_PENDING
                  \<and> failed_date (fx_compensation_history st ! i) \<ge> date_of now - 7
               then (fx_compensation_history st ! i)\<lparr>compensation_status := C_COMPLETED,
                      compensation_date := Some (date_of now), c_update_time := now\<rparr>
               else fx_compensation_history st ! i))
       \<and> (\<forall>i < length (fx_compensation_history st).
            failed_date (fx_compensation_history st ! i) = date_of now - 10 \<longrightarrow>
            fx_compensation_history (snd (mark_compensation_completed now X st)) ! i
              = fx_compensation_history st ! i)
       \<and> length (fx_account_status (snd (mark_compensation_completed now X st)))
           = length (fx_account_status st)
       \<and> (\<forall>i < length (fx_account_status st).
            account_id (fx_account_status st ! i) = X \<longrightarrow>
            account_id (fx_account_status (snd (mark_compensation_completed now X st)) ! i) = X
            \<and> compensation_priority (fx_account_status (snd (mark_compensation_completed now X st)) ! i) = Some 0
            \<and> consecutive_failures (fx_account_status (snd (mark_compensation_completed now X st)) ! i) = Some 0)"
proof -
  have 1: "fst (mark_compensation_completed now X st) = True"
    using assms by (simp add: mark_compensation_completed_def)
  have 2: "length (fx_compensation_history (snd (mark_compensation_completed now X st)))
           = length (fx_compensation_history st)"
    using assms by (simp add: completed_history)
  have 3: "\<forall>i < length (fx_compensation_history st).
            fx_compensation_history (snd (mark_compensation_completed now X st)) ! i =
              (if c_account_id (fx_compensation_history st ! i) = X
                  \<and> compensation_status (fx_compensation_history st ! i) = C_PENDING
                  \<and> failed_date (fx_compensation_history st ! i) \<ge> date_of now - 7
               then (fx_compensation_history st ! i)\<lparr>compensation_status := C_COMPLETED,
                      compensation_date := Some (date_of now), c_update_time := now\<rparr>
               else fx_compensation_history st ! i)"
    using assms by (simp add: completed_history in_window_def)
  have 4: "\<forall>i < length (fx_compensation_history st).
            failed_date (fx_compensation_history st ! i) = date_of now - 10 \<longrightarrow>
            fx_compensation_history (snd (mark_compensation_completed now X st)) ! i
              = fx_compensation_history st ! i"
    using assms by (simp add: completed_history in_window_def)
  have 5: "length (fx_account_status (snd (mark_compensation_completed now X st)))
           = length (fx_account_status st)"
    using assms by (simp add: completed_accounts)
  have 6: "\<forall>i < length (fx_account_status st).
            account_id (fx_account_status st ! i) = X \<longrightarrow>
            account_id (fx_account_status (snd (mark_compensation_completed now X st)) ! i) = X
            \<and> compensation_priority (fx_account_status (snd (mark_compensation_completed now X st)) ! i) = Some 0
            \<and> consecutive_failures (fx_account_status (snd (mark_compensation_completed now X st)) ! i) = Some 0"
    using assms by (simp add: completed_accounts)
  from 1 2 3 4 5 6 show ?thesis by blast
qed

text \<open>
  The theorem at an account with priority 1 and four consecutive failures whose only
  PENDING record failed ten days ago.
\<close>

theorem mark_compensation_completed_window_witness:
  "fx_compensation_history (snd (mark_compensation_completed example_now ''A''
      (example_db [(example_account ''A'' COMPLETED None (Some 19990))\<lparr>compensation_priority := Some 1, consecutive_failures := Some 4\<rparr>]
                  [example_record ''A'' 19990 C_PENDING]))) ! 0
     = example_record ''A'' 19990 C_PENDING
   \<and> compensation_priority (fx_account_status (snd (mark_compensation_completed example_now ''A''
      (example_db [(example_account ''A'' COMPLETED None (Some 19990))\<lparr>compensation_priority := Some 1, consecutive_failures := Some 4\<rparr>]
                  [example_record ''A'' 19990 C_PENDING]))) ! 0) = Some 0
   \<and> consecutive_failures (fx_account_status (snd (mark_compensation_completed example_now ''A''
      (example_db [(example_account ''A'' COMPLETED None (Some 19990))\<lparr>compensation_priority := Some 1, consecutive_failures := Some 4\<rparr>]
                  [example_record ''A'' 19990 C_PENDING]))) ! 0) = Some 0"
proof -
  let ?db = "example_db [(example_account ''A'' COMPLETED None (Some 19990))\<lparr>compensation_priority := Some 1, consecutive_failures := Some 4\<rparr>]
                  [example_record ''A'' 19990 C_PENDING]"
  have h: "conn_ok ?db" by (simp add: example_db_def)
  note t = mark_compensation_completed_window[OF h, of example_now "''A''"]
  from t have a: "\<forall>i < length (fx_compensation_history ?db).
            failed_date (fx_compensation_history ?db ! i) = date_of example_now - 10 \<longrightarrow>
            fx_compensation_history (snd (mark_compensation_completed example_now ''A'' ?db)) ! i
              = fx_compensation_history ?db ! i"
    by blast
  from t have b: "\<forall>i < length (fx_account_status ?db).
            account_id (fx_account_status ?db ! i) = ''A'' \<longrightarrow>
            account_id (fx_account_status (snd (mark_compensation_completed example_now ''A'' ?db)) ! i) = ''A''
            \<and> compensation_priority (fx_account_status (snd (mark_compensation_completed example_now ''A'' ?db)) ! i) = Some 0
            \<and> consecutive_failures (fx_account_status (snd (mark_compensation_completed example_now ''A'' ?db)) ! i) = Some 0"
    by blast
  have 0: "0 < length (fx_compensation_history ?db)" "0 < length (fx_account_status ?db)"
    by (simp_all add: example_db_def)
  have fd: "failed_date (fx_compensation_history ?db ! 0) = date_of example_now - 10"
    by (simp add: example_db_def example_record_def date_example)
  have id: "account_id (fx_account_status ?db ! 0) = ''A''"
    by (simp add: example_db_def example_account_def)
  have r: "fx_compensation_history ?db ! 0 = example_record ''A'' 19990 C_PENDING"
    by (simp add: example_db_def)
  from a 0(1) fd r b 0(2) id show ?thesis by simp
qed


section \<open>Properties of the round orchestrator\<close>

subsection \<open>Auxiliary facts\<close>

lemma test_mode_example: "is_test_mode posix_basename (Some ''data/Test1.xlsx'')"
  by code_simp

lemma contains_sublist: "contains sub s = sublist sub s"
  by (induction s) (auto simp: sublist_Cons_right)

lemma history_step:
  "map (\<lambda>c. if c_account_id c \<in> S \<and> compensation_status c = C_PENDING \<and> failed_date c \<ge> d - 7
            then c\<lparr>compensation_status := C_COMPLETED, compensation_date := Some d, c_update_time := now\<rparr>
            else c)
     (map (\<lambda>c. if in_window d r c
               then c\<lparr>compensation_status := C_COMPLETED, compensation_date := Some d, c_update_time := now\<rparr>
               else c) cs)
   = map (\<lambda>c. if c_account_id c \<in> insert r S \<and> compensation_status c = C_PENDING \<and> failed_date c \<ge> d - 7
              then c\<lparr>compensation_status := C_COMPLETED, compensation_date := Some d, c_update_time := now\<rparr>
              else c) cs"
  unfolding map_map by (rule map_cong) (auto simp: in_window_def)

lemma accounts_step:
  "map (\<lambda>a. if account_id a \<in> S
            then a\<lparr>compensation_priority := Some 0, consecutive_failures := Some 0,
                   last_update_time := now, update_time := now\<rparr>
            else a)
     (map (\<lambda>a. if account_id a = r
               then a\<lparr>compensation_priority := Some 0, consecutive_failures := Some 0,
                      last_update_time := now, update_time := now\<rparr>
               else a) as)
   = map (\<lambda>a. if account_id a \<in> insert r S
              then a\<lparr>compensation_priority := Some 0, consecutive_failures := Some 0,
                     last_update_time := now, update_time := now\<rparr>
              else a) as"
  unfolding map_map by (rule map_cong) auto

lemma mark_all_completed_down: "\<not> conn_ok st \<Longrightarrow> mark_all_completed now as st = st"
  unfolding mark_all_completed_def
  by (induction as) (simp_all add: mark_compensation_completed_def)

lemma mark_all_completed_closed:
  "conn_ok st \<Longrightarrow> mark_all_completed now as st =
     st\<lparr>fx_account_status :=
          map (\<lambda>a. if account_id a \<in> target_id ` set as
                    then a\<lparr>compensation_priority := Some 0, consecutive_failures := Some 0,
                           last_update_time := now, update_time := now\<rparr>
                    else a) (fx_account_status st),
        fx_compensation_history :=
          map (\<lambda>c. if c_account_id c \<in> target_id ` set as \<and> compensation_status c = C_PENDING
                       \<and> failed_date c \<ge> date_of now - 7
                    then c\<lparr>compensation_status := C_COMPLETED,
                           compensation_date := Some (date_of now), c_update_time := now\<rparr>
                    else c) (fx_compensation_history st)\<rparr>"
proof (induction as arbitrary: st)
  case Nil
  then show ?case by (simp add: mark_all_completed_def)
next
  case (Cons r rs)
  let ?st1 = "snd (mark_compensation_completed now (target_id r) st)"
  have c1: "conn_ok ?st1" using Cons.prems by (simp add: completed_conn)
  have unfold: "mark_all_completed now (r # rs) st = mark_all_completed now rs ?st1"
    by (simp add: mark_all_completed_def)
  have ins: "target_id ` set (r # rs) = insert (target_id r) (target_id ` set rs)"
    by simp
  have acc: "map (\<lambda>a. if account_id a \<in> target_id ` set rs
                    then a\<lparr>compensation_priority := Some 0, consecutive_failures := Some 0,
                           last_update_time := now, update_time := now\<rparr>
                    else a) (fx_account_status ?st1)
           = map (\<lambda>a. if account_id a \<in> target_id ` set (r # rs)
                    then a\<lparr>compensation_priority := Some 0, consecutive_failures := Some 0,
                           last_update_time := now, update_time := now\<rparr>
                    else a) (fx_account_status st)"
    unfolding completed_accounts[OF Cons.prems] ins by (rule accounts_step)
  have his: "map (\<lambda>c. if c_account_id c \<in> target_id ` set rs \<and> compensation_status c = C_PENDING
                       \<and> failed_date c \<ge> date_of now - 7
                    then c\<lparr>compensation_status := C_COMPLETED,
                           compensation_date := Some (date_of now), c_update_time := now\<rparr>
                    else c) (fx_compensation_history ?st1)
           = map (\<lambda>c. if c_account_id c \<in> target_id ` set (r # rs) \<and> compensation_status c = C_PENDING
                       \<and> failed_date c \<ge> date_of now - 7
                    then c\<lparr>compensation_status := C_COMPLETED,
                           compensation_date := Some (date_of now), c_update_time := now\<rparr>
                    else c) (fx_compensation_history st)"
    unfolding completed_history[OF Cons.prems] ins by (rule history_step)
  have rest: "?st1\<lparr>fx_account_status := xs, fx_compensation_history := ys\<rparr>
            = st\<lparr>fx_account_status := xs, fx_compensation_history := ys\<rparr>" for xs ys
    using Cons.prems by (simp add: mark_compensation_completed_def)
  show ?case
    unfolding unfold Cons.IH[OF c1] acc his rest ..
qed



lemma record_current_accounts:
  "fx_account_status (snd (record_current_failures_to_compensation now st)) = fx_account_status st"
  by (simp add: record_current_failures_to_compensation_def record_failed_accounts)




lemma unfinished_accounts:
  "fx_account_status (record_and_mark_unfinished now st) = fx_account_status st"
  by (simp add: record_and_mark_unfinished_def mark_crawl_unfinished_def record_current_accounts)


lemma is_test_mode_some:
  "p \<noteq> [] \<Longrightarrow> is_test_mode basename (Some p) \<longleftrightarrow> sublist ''test'' (map lower_char (basename p))"
  by (simp add: is_test_mode_def contains_sublist)

subsection \<open>The full-success check\<close>

text \<open>
  What \<open>_is_full_success\<close> decides: the connection works, at least one row of the
  account table carries an attempted id, and every such row is COMPLETED. An attempted
  id with no row takes no part in the decision.
\<close>

lemma is_full_success_iff:
  "is_full_success attempted st \<longleftrightarrow>
     conn_ok st
     \<and> (\<exists>a \<in> set (fx_account_status st). account_id a \<noteq> [] \<and> account_id a \<in> target_id ` set attempted)
     \<and> (\<forall>a \<in> set (fx_account_status st).
           account_id a \<noteq> [] \<and> account_id a \<in> target_id ` set attempted \<longrightarrow> status a = COMPLETED)"
  by (auto simp: is_full_success_def Let_def filter_empty_conv list_all_iff)

text \<open>
  Claim C2 says that the check is false as soon as one attempted account has no row in
  the store. With \<open>A\<close> and \<open>B\<close> attempted, \<open>A\<close> COMPLETED and no row for \<open>B\<close>, the
  check returns True: the query selects the rows that exist, and only an empty
  selection is treated as failure.
\<close>

theorem is_full_success_ignores_missing_account:
  "is_full_success [example_target ''A'', example_target ''B'']
     (example_db [example_account ''A'' COMPLETED None None] []) = True"
  by (simp add: is_full_success_def example_db_def example_account_def example_target_def)

subsection \<open>The full pass\<close>




text \<open>
  Claim C10. When the base name of the target list contains \<open>test\<close> in any case, the
  flag \<open>is_test_mode\<close> is set, and a full pass whose child process exits 0 returns
  the database exactly as the child left it, whatever the success check says: no
  ledger entry, no compensation record.
\<close>

theorem test_mode_exit_zero_writes_nothing:
  assumes "is_test_mode basename full_excel_path" and "proc st = (Returned 0, st1)"
  shows "run_cmd (is_test_mode basename full_excel_path) True proc ''full'' attempted now st = st1
       \<and> fx_crawl_exception (run_cmd (is_test_mode basename full_excel_path) True proc ''full'' attempted now st)
           = fx_crawl_exception st1
       \<and> fx_compensation_history (run_cmd (is_test_mode basename full_excel_path) True proc ''full'' attempted now st)
           = fx_compensation_history st1"
  using assms by (simp add: run_cmd_def)

text \<open>The theorem at the target list \<open>data/Test1.xlsx\<close> with a failed account.\<close>

theorem test_mode_exit_zero_writes_nothing_witness:
  "is_test_mode posix_basename (Some ''data/Test1.xlsx'')
   \<and> run_cmd (is_test_mode posix_basename (Some ''data/Test1.xlsx'')) True (example_proc (Returned 0)) ''full''
        [example_target ''A''] example_now (example_db [example_account ''A'' EXCEPTION (Some ''boom'') None] [])
      = example_db [example_account ''A'' EXCEPTION (Some ''boom'') None] []"
proof -
  have p: "example_proc (Returned 0) (example_db [example_account ''A'' EXCEPTION (Some ''boom'') None] [])
             = (Returned 0, example_db [example_account ''A'' EXCEPTION (Some ''boom'') None] [])"
    by (simp add: example_proc_def)
  from test_mode_exit_zero_writes_nothing[where proc = "example_proc (Returned 0)"
        and st = "example_db [example_account ''A'' EXCEPTION (Some ''boom'') None] []", OF test_mode_example p]
    test_mode_example
  show ?thesis by blast
qed

subsection \<open>The compensation pass\<close>

text \<open>
  Claim C3, as stated, has each attempted account checked against its recorded crawl
  outcome before it is marked. An attempted account that the child process left in
  EXCEPTION has its pending record closed as COMPLETED all the same.
\<close>

theorem compensation_pass_marks_failed_account_counterexample:
  "map status (fx_account_status (run_cmd False True (example_proc (Returned 0)) ''compensation'' [example_target ''A''] example_now
        (example_db [example_account ''A'' EXCEPTION (Some ''boom'') None] [example_record ''A'' 20000 C_PENDING]))) = [EXCEPTION]
   \<and> map compensation_status (fx_compensation_history (run_cmd False True (example_proc (Returned 0)) ''compensation'' [example_target ''A''] example_now
        (example_db [example_account ''A'' EXCEPTION (Some ''boom'') None] [example_record ''A'' 20000 C_PENDING]))) = [C_COMPLETED]"
  by (simp add: run_cmd_def example_proc_def mark_all_completed_def mark_compensation_completed_def in_window_def
       example_db_def example_account_def example_record_def example_target_def date_example)

text \<open>
  Claim C3, amended. When the child process of the compensation pass exits 0, every
  attempted account is marked compensation-completed without a look at its status:
  its rows get \<open>compensation_priority\<close> 0 and \<open>consecutive_failures\<close> 0, and its
  PENDING records of the last seven days become COMPLETED. Rows and records of
  accounts that were not attempted are untouched, and so is the ledger.
\<close>

theorem compensation_pass_exit_zero:
  assumes "proc st = (Returned 0, st1)" and "mode \<noteq> ''full''" and "conn_ok st1"
  shows "run_cmd test_mode True proc mode attempted now st =
     st1\<lparr>fx_account_status :=
          map (\<lambda>a. if account_id a \<in> target_id ` set attempted
                    then a\<lparr>compensation_priority := Some 0, consecutive_failures := Some 0,
                           last_update_time := now, update_time := now\<rparr>
                    else a) (fx_account_status st1),
        fx_compensation_history :=
          map (\<lambda>c. if c_account_id c \<in> target_id ` set attempted \<and> compensation_status c = C_PENDING
                       \<and> failed_date c \<ge> date_of now - 7
                    then c\<lparr>compensation_status := C_COMPLETED,
                           compensation_date := Some (date_of now), c_update_time := now\<rparr>
                    else c) (fx_compensation_history st1)\<rparr>"
  using assms by (simp add: run_cmd_def mark_all_completed_closed)

text \<open>
  The theorem with \<open>A\<close> attempted and \<open>B\<close> not: only the record and the counters of
  \<open>A\<close> change.
\<close>

theorem compensation_pass_exit_zero_witness:
  "map compensation_status (fx_compensation_history
      (run_cmd False True (example_proc (Returned 0)) ''compensation'' [example_target ''A''] example_now
        (example_db [example_account ''A'' EXCEPTION (Some ''boom'') None, example_account ''B'' EXCEPTION None None]
                    [example_record ''A'' 20000 C_PENDING, example_record ''B'' 20000 C_PENDING])))
     = [C_COMPLETED, C_PENDING]
   \<and> map consecutive_failures (fx_account_status
      (run_cmd False True (example_proc (Returned 0)) ''compensation'' [example_target ''A''] example_now
        (example_db [(example_account ''A'' EXCEPTION (Some ''boom'') None)\<lparr>consecutive_failures := Some 4\<rparr>,
                     (example_account ''B'' EXCEPTION None None)\<lparr>consecutive_failures := Some 4\<rparr>]
                    [])))
     = [Some 0, Some 4]
   \<and> fx_crawl_exception
      (run_cmd False True (example_proc (Returned 0)) ''compensation'' [example_target ''A''] example_now
        (example_db [example_account ''A'' EXCEPTION (Some ''boom'') None, example_account ''B'' EXCEPTION None None]
                    [example_record ''A'' 20000 C_PENDING, example_record ''B'' 20000 C_PENDING]))
     = []"
proof -
  let ?db = "example_db [example_account ''A'' EXCEPTION (Some ''boom'') None, example_account ''B'' EXCEPTION None None]
                    [example_record ''A'' 20000 C_PENDING, example_record ''B'' 20000 C_PENDING]"
  let ?db2 = "example_db [(example_account ''A'' EXCEPTION (Some ''boom'') None)\<lparr>consecutive_failures := Some 4\<rparr>,
                     (example_account ''B'' EXCEPTION None None)\<lparr>consecutive_failures := Some 4\<rparr>] []"
  have p: "example_proc (Returned 0) st = (Returned 0, st)" for st by (simp add: example_proc_def)
  have m: "''compensation'' \<noteq> ''full''" by simp
  have c: "conn_ok ?db" "conn_ok ?db2" by (simp_all add: example_db_def)
  note t1 = compensation_pass_exit_zero[where proc = "example_proc (Returned 0)" and st = ?db and test_mode = False
      and attempted = "[example_target ''A'']" and now = example_now, OF p m c(1)]
  note t2 = compensation_pass_exit_zero[where proc = "example_proc (Returned 0)" and st = ?db2 and test_mode = False
      and attempted = "[example_target ''A'']" and now = example_now, OF p m c(2)]
  have 1: "map compensation_status (fx_compensation_history
      (run_cmd False True (example_proc (Returned 0)) ''compensation'' [example_target ''A''] example_now ?db))
     = [C_COMPLETED, C_PENDING]"
    unfolding t1 by (simp add: example_db_def example_record_def example_target_def date_example)
  have 2: "map consecutive_failures (fx_account_status
      (run_cmd False True (example_proc (Returned 0)) ''compensation'' [example_target ''A''] example_now ?db2))
     = [Some 0, Some 4]"
    unfolding t2 by (simp add: example_db_def example_account_def example_target_def)
  have 3: "fx_crawl_exception
      (run_cmd False True (example_proc (Returned 0)) ''compensation'' [example_target ''A''] example_now ?db) = []"
    unfolding t1 by (simp add: example_db_def)
  from 1 2 3 show ?thesis by blast
qed

section \<open>Properties of the proxy lease\<close>

subsection \<open>The retry loop\<close>

lemma attempts_failed_step:
  assumes "parse_attempt (respond pv i) = AttemptFailed"
  shows "fst (attempts pv i (Suc k) pm) = fst (attempts pv (Suc i) k pm)"
    and "fst (snd (attempts pv i (Suc k) pm)) = fst (snd (attempts pv (Suc i) k pm))"
    and "snd (snd (attempts pv i (Suc k) pm)) =
           Request i # (if k > 0 then [Sleep (retry_delay pm)] else []) @ snd (snd (attempts pv (Suc i) k pm))"
  using assms by (simp_all add: case_prod_unfold Let_def)

lemma attempts_server_step:
  "parse_attempt (respond pv i) = Server server \<Longrightarrow>
     attempts pv i (Suc k) pm =
       (Some (Inr True),
        pm\<lparr>upstream_proxy := Some (''http://'' @ format_server pv server),
           proxy_expiry_time := Some (clock pv i + timedelta (ip_lifetime pm)),
           pm_consecutive_failures := 0\<rparr>,
        [Request i])"
  by simp

lemma attempts_uncaught_step:
  "parse_attempt (respond pv i) = Uncaught e \<Longrightarrow>
     attempts pv i (Suc k) pm = (Some (Inl e), pm, [Request i])"
  by simp

lemmas attempts_steps = attempts_failed_step attempts_server_step attempts_uncaught_step

lemma attempts_enabled: "enabled (fst (snd (attempts pv i k pm))) = enabled pm"
proof (induction k arbitrary: i)
  case 0
  show ?case by simp
next
  case (Suc k)
  show ?case
    by (cases "parse_attempt (respond pv i)") (simp_all del: attempts.simps(2) add: attempts_steps Suc.IH)
qed


lemma attempts_exhausted: "fst (attempts pv i k pm) = None \<Longrightarrow> fst (snd (attempts pv i k pm)) = pm"
proof (induction k arbitrary: i)
  case 0
  show ?case by simp
next
  case (Suc k)
  then show ?case
    by (cases "parse_attempt (respond pv i)") (simp_all del: attempts.simps(2) add: attempts_steps)
qed

lemma attempts_all_failed:
  "(\<forall>j < k. parse_attempt (respond pv (i + j)) = AttemptFailed) \<Longrightarrow>
     fst (attempts pv i k pm) = None
     \<and> length (filter is_request (snd (snd (attempts pv i k pm)))) = k"
proof (induction k arbitrary: i)
  case 0
  then show ?case by simp
next
  case (Suc k)
  have h: "parse_attempt (respond pv i) = AttemptFailed"
    using Suc.prems[rule_format, of 0] by simp
  have "\<forall>j<k. parse_attempt (respond pv (Suc i + j)) = AttemptFailed"
  proof (intro allI impI)
    fix j assume "j < k"
    then have "Suc j < Suc k" by simp
    from Suc.prems[rule_format, OF this] show "parse_attempt (respond pv (Suc i + j)) = AttemptFailed"
      by simp
  qed
  from Suc.IH[OF this] show ?case
    by (simp del: attempts.simps(2) add: attempts_failed_step[OF h])
qed


lemma attempts_result: "fst (attempts pv i k pm) \<noteq> Some (Inr False)"
proof (induction k arbitrary: i)
  case 0
  show ?case by simp
next
  case (Suc k)
  then show ?case
    by (cases "parse_attempt (respond pv i)") (simp_all del: attempts.simps(2) add: attempts_steps)
qed

lemma get_new_proxy_unfold:
  "get_new_proxy pv pm =
     (case fst (attempts pv 0 (nat (max_retries pm)) pm) of
        Some r \<Rightarrow> (r, fst (snd (attempts pv 0 (nat (max_retries pm)) pm)),
                   CallGetNewProxy # snd (snd (attempts pv 0 (nat (max_retries pm)) pm)))
      | None \<Rightarrow> (Inr False,
                  pm\<lparr>pm_consecutive_failures := pm_consecutive_failures pm + 1,
                     enabled := enabled pm \<and> pm_consecutive_failures pm + 1 < fallback_after_failures pm\<rparr>,
                  CallGetNewProxy # snd (snd (attempts pv 0 (nat (max_retries pm)) pm))))"
proof (cases "fst (attempts pv 0 (nat (max_retries pm)) pm)")
  case None
  from attempts_exhausted[OF None] None show ?thesis
    by (cases "attempts pv 0 (nat (max_retries pm)) pm") (auto simp: get_new_proxy_def Let_def)
next
  case (Some r)
  then show ?thesis
    by (cases "attempts pv 0 (nat (max_retries pm)) pm") (auto simp: get_new_proxy_def)
qed

lemma get_new_proxy_failed:
  assumes "fst (get_new_proxy pv pm) = Inr False"
  shows "fst (snd (get_new_proxy pv pm)) =
           pm\<lparr>pm_consecutive_failures := pm_consecutive_failures pm + 1,
              enabled := enabled pm \<and> pm_consecutive_failures pm + 1 < fallback_after_failures pm\<rparr>"
  using assms attempts_result[of pv 0 "nat (max_retries pm)" pm]
  by (simp add: get_new_proxy_unfold split: option.splits)

lemma get_new_proxy_mono: "enabled (fst (snd (get_new_proxy pv pm))) \<Longrightarrow> enabled pm"
  using attempts_enabled[of pv 0 "nat (max_retries pm)" pm]
  by (simp add: get_new_proxy_unfold split: option.splits)

lemma refresh_mono: "enabled (fst (snd (refresh_proxy_if_needed now pv pm))) \<Longrightarrow> enabled pm"
  using get_new_proxy_mono[of pv pm]
  by (auto simp: refresh_proxy_if_needed_def case_prod_unfold split: if_splits)

lemma get_current_mono: "enabled (fst (snd (get_current_proxy now pv pm))) \<Longrightarrow> enabled pm"
  using refresh_mono[of now pv pm]
  by (auto simp: get_current_proxy_def case_prod_unfold split: if_splits sum.splits)

lemma step_mono: "enabled (step pm c) \<Longrightarrow> enabled pm"
  by (cases c) (auto dest: get_current_mono refresh_mono get_new_proxy_mono)

lemma run_calls_mono: "\<not> enabled pm \<Longrightarrow> \<not> enabled (run_calls pm cs)"
  unfolding run_calls_def
  by (induction cs arbitrary: pm) (auto dest: step_mono)

lemma get_new_proxy_all_failed:
  assumes "\<forall>j < nat (max_retries pm). parse_attempt (respond pv j) = AttemptFailed"
  shows "fst (get_new_proxy pv pm) = Inr False"
    and "length (filter is_request (snd (snd (get_new_proxy pv pm)))) = nat (max_retries pm)"
  using attempts_all_failed[of "nat (max_retries pm)" pv 0 pm] assms
  by (simp_all add: get_new_proxy_unfold)

lemma get_current_disabled: "\<not> enabled pm \<Longrightarrow> get_current_proxy now pv pm = (Inr None, pm, [])"
  by (simp add: get_current_proxy_def)

subsection \<open>The circuit breaker\<close>

text \<open>
  Claim C6. A call of \<open>_get_new_proxy\<close> that returns False has raised the failure
  counter by exactly one, however many attempts it made, and has left the manager
  enabled only if it was enabled and the new counter is below
  \<open>fallback_after_failures\<close>. A call all of whose \<open>max_retries\<close> attempts fail is such
  a call. Once \<open>enabled\<close> is false it stays false through any sequence of calls of the
  lease operations, whatever the provider answers, and \<open>get_current_proxy\<close> returns
  None with no event at all: no lock, no request.
\<close>

theorem breaker_is_one_way:
  "(fst (get_new_proxy pv pm) = Inr False \<longrightarrow>
       pm_consecutive_failures (fst (snd (get_new_proxy pv pm))) = pm_consecutive_failures pm + 1
     \<and> enabled (fst (snd (get_new_proxy pv pm)))
         = (enabled pm \<and> pm_consecutive_failures pm + 1 < fallback_after_failures pm))
   \<and> ((\<forall>j < nat (max_retries pm). parse_attempt (respond pv j) = AttemptFailed) \<longrightarrow>
        fst (get_new_proxy pv pm) = Inr False
      \<and> length (filter is_request (snd (snd (get_new_proxy pv pm)))) = nat (max_retries pm))
   \<and> (\<not> enabled pm \<longrightarrow> \<not> enabled (run_calls pm cs))
   \<and> (\<not> enabled pm \<longrightarrow> get_current_proxy now pv pm = (Inr None, pm, []))"
proof -
  have 1: "fst (get_new_proxy pv pm) = Inr False \<longrightarrow>
       pm_consecutive_failures (fst (snd (get_new_proxy pv pm))) = pm_consecutive_failures pm + 1
     \<and> enabled (fst (snd (get_new_proxy pv pm)))
         = (enabled pm \<and> pm_consecutive_failures pm + 1 < fallback_after_failures pm)"
    by (simp add: get_new_proxy_failed)
  have 2: "(\<forall>j < nat (max_retries pm). parse_attempt (respond pv j) = AttemptFailed) \<longrightarrow>
        fst (get_new_proxy pv pm) = Inr False
      \<and> length (filter is_request (snd (snd (get_new_proxy pv pm)))) = nat (max_retries pm)"
    using get_new_proxy_all_failed[of pm pv] by blast
  have 3: "\<not> enabled pm \<longrightarrow> \<not> enabled (run_calls pm cs)"
    using run_calls_mono by blast
  have 4: "\<not> enabled pm \<longrightarrow> get_current_proxy now pv pm = (Inr None, pm, [])"
    using get_current_disabled by blast
  from 1 2 3 4 show ?thesis by blast
qed

lemma failing_once:
  "max_retries pm = 3 \<Longrightarrow> fst (snd (get_new_proxy failing_provider pm)) =
      pm\<lparr>pm_consecutive_failures := pm_consecutive_failures pm + 1,
         enabled := enabled pm \<and> pm_consecutive_failures pm + 1 < fallback_after_failures pm\<rparr>"
  by (rule get_new_proxy_failed, rule get_new_proxy_all_failed(1))
     (simp add: failing_provider_def parse_attempt_def)

lemma three_failures:
  "run_calls example_manager [GetNewProxy failing_provider, GetNewProxy failing_provider, GetNewProxy failing_provider]
    = example_manager\<lparr>pm_consecutive_failures := 3, enabled := False\<rparr>"
  by (simp add: run_calls_def failing_once example_manager_def)


text \<open>
  The theorem after three failed calls with the default threshold 3: the breaker is
  open, and a provider that answers correctly does not close it.
\<close>

theorem breaker_is_one_way_witness:
  "pm_consecutive_failures (fst (snd (get_new_proxy failing_provider example_manager))) = 1
   \<and> length (filter is_request (snd (snd (get_new_proxy failing_provider example_manager)))) = 3
   \<and> \<not> enabled (run_calls
        (run_calls example_manager [GetNewProxy failing_provider, GetNewProxy failing_provider, GetNewProxy failing_provider])
        [GetNewProxy (good_provider 0), GetCurrentProxy 5 (good_provider 0)])
   \<and> get_current_proxy 5 (good_provider 0)
        (run_calls example_manager [GetNewProxy failing_provider, GetNewProxy failing_provider, GetNewProxy failing_provider])
      = (Inr None, example_manager\<lparr>pm_consecutive_failures := 3, enabled := False\<rparr>, [])"
proof -
  have f: "\<forall>j < nat (max_retries example_manager). parse_attempt (respond failing_provider j) = AttemptFailed"
    by (simp add: failing_provider_def parse_attempt_def)
  have m: "nat (max_retries example_manager) = 3" "pm_consecutive_failures example_manager = 0"
    by (simp_all add: example_manager_def)
  have d: "\<not> enabled (run_calls example_manager [GetNewProxy failing_provider, GetNewProxy failing_provider, GetNewProxy failing_provider])"
    by (simp add: three_failures)
  from breaker_is_one_way[of failing_provider example_manager "[]" 0] f m
  have a: "pm_consecutive_failures (fst (snd (get_new_proxy failing_provider example_manager))) = 1
     \<and> length (filter is_request (snd (snd (get_new_proxy failing_provider example_manager)))) = 3"
    by simp
  from breaker_is_one_way[of "good_provider 0"
        "run_calls example_manager [GetNewProxy failing_provider, GetNewProxy failing_provider, GetNewProxy failing_provider]"
        "[GetNewProxy (good_provider 0), GetCurrentProxy 5 (good_provider 0)]" 5] d
  have b: "\<not> enabled (run_calls
        (run_calls example_manager [GetNewProxy failing_provider, GetNewProxy failing_provider, GetNewProxy failing_provider])
        [GetNewProxy (good_provider 0), GetCurrentProxy 5 (good_provider 0)])
     \<and> get_current_proxy 5 (good_provider 0)
        (run_calls example_manager [GetNewProxy failing_provider, GetNewProxy failing_provider, GetNewProxy failing_provider])
      = (Inr None, run_calls example_manager [GetNewProxy failing_provider, GetNewProxy failing_provider, GetNewProxy failing_provider], [])"
    by blast
  from a b show ?thesis by (simp add: three_failures)
qed

subsection \<open>Lease validity\<close>










end
